theory Spec2Isabelle
  imports Main
begin

section \<open>Data model\<close>

text \<open>
  The toolkit works on DOM objects. The embedding keeps of every object the
  attributes and properties that the validation code reads or writes.

  Strings are Isabelle strings; a value is read as its sequence of code units.
  Time values (\<open>Date.prototype.getTime\<close>) are integers, milliseconds since the epoch;
  the parser of the host (\<open>new Date(s)\<close>) is a parameter \<open>parse\<close> of every function
  that needs it, with \<open>None\<close> for the invalid date (time value NaN).
\<close>

subsection \<open>Validation results and validator options\<close>

text \<open>The object \<open>{ valid, message }\<close> that every validator returns.\<close>

record vresult =
  valid :: bool
  message :: string

text \<open>
  The options object handed to a validator: the configuration entry itself when the
  entry is an object, \<open>{}\<close> when the entry is a bare name. A property that the object
  does not have (\<open>undefined\<close>) is \<open>None\<close>.
\<close>

record options =
  opt_name :: "string option"
  opt_startField :: "string option"
  opt_endField :: "string option"
  opt_message :: "string option"

definition empty_options :: options where
  "empty_options = \<lparr>opt_name = None, opt_startField = None, opt_endField = None,
     opt_message = None\<rparr>"

text \<open>A validator configuration entry: a bare name, or an object \<open>{ name, ...options }\<close>.\<close>

datatype config = Bare string | Entry options

subsection \<open>Elements and forms\<close>

text \<open>
  An element of a form with the constraint validation interface: \<open>el_tag\<close> is its tag
  name in lower case (\<open>input\<close>, \<open>select\<close>, \<open>textarea\<close>, \<open>button\<close>, \<open>output\<close>,
  \<open>fieldset\<close>, \<open>object\<close>). \<open>el_custom\<close> is the custom validity error message set by
  \<open>setCustomValidity\<close>; \<open>el_constraints_ok\<close> says that no validity flag other than
  \<open>customError\<close> is raised (required, pattern, min, max, ...); \<open>el_will_validate\<close> is
  the \<open>willValidate\<close> property: false for a control that the platform bars from
  constraint validation (disabled, read-only, hidden, ...). \<open>el_feedback\<close> is the address
  of the element that \<open>input.parentElement?.querySelector('.invalid-feedback')\<close> finds,
  if any; several controls under one parent share it.
\<close>

record element =
  el_tag :: string
  el_name :: "string option"
  el_type :: string
  el_value :: string
  el_required :: bool
  el_classes :: "string list"
  el_custom :: string
  el_constraints_ok :: bool
  el_will_validate :: bool
  el_feedback :: "nat option"

text \<open>
  A form: its controls in tree order, its own class list, the \<open>textContent\<close> of the
  feedback elements by address, and the \<open>disabled\<close> property of its submit button
  (\<open>None\<close> when \<open>form.querySelector('button[type="submit"]')\<close> finds nothing).
\<close>

record form =
  controls :: "element list"
  form_classes :: "string list"
  feedback_text :: "nat \<Rightarrow> string"
  submit_disabled :: "bool option"

type_synonym validator = "string \<Rightarrow> options \<Rightarrow> form \<Rightarrow> vresult"

subsection \<open>Platform operations\<close>

text \<open>\<open>classList.add\<close>, \<open>classList.remove\<close> and \<open>classList.contains\<close> on a token list.\<close>

definition classList_add :: "string \<Rightarrow> string list \<Rightarrow> string list" where
  "classList_add c cs = (if c \<in> set cs then cs else cs @ [c])"

definition classList_remove :: "string \<Rightarrow> string list \<Rightarrow> string list" where
  "classList_remove c cs = filter (\<lambda>x. x \<noteq> c) cs"

definition classList_contains :: "string \<Rightarrow> string list \<Rightarrow> bool" where
  "classList_contains c cs = (c \<in> set cs)"

text \<open>
  \<open>element.checkValidity()\<close>: a control that is no candidate for constraint validation
  passes; a candidate passes when it satisfies its constraints, the custom one included.
\<close>

definition checkValidity :: "element \<Rightarrow> bool" where
  "checkValidity e =
     (if el_will_validate e then el_constraints_ok e \<and> el_custom e = [] else True)"

text \<open>\<open>form.checkValidity()\<close>: every control of the form passes.\<close>

definition form_checkValidity :: "form \<Rightarrow> bool" where
  "form_checkValidity f = list_all checkValidity (controls f)"

text \<open>Position of the first element of a list that satisfies a test.\<close>

fun find_first :: "('a \<Rightarrow> bool) \<Rightarrow> 'a list \<Rightarrow> nat option" where
  "find_first P [] = None"
| "find_first P (x # xs) = (if P x then Some 0 else map_option Suc (find_first P xs))"

text \<open>The first control of the form, in tree order, whose \<open>name\<close> attribute is \<open>n\<close>.\<close>

definition first_named :: "form \<Rightarrow> string \<Rightarrow> nat option" where
  "first_named f n = find_first (\<lambda>e. el_name e = Some n) (controls f)"

text \<open>
  The code looks a field up with \<open>form.querySelector(`[name="${n}"]`)\<close>: the name is
  pasted into the text of a selector, between double quotes. The selector tests that
  the \<open>name\<close> attribute is \<open>n\<close> only when \<open>n\<close> reads as the inside of a CSS string that
  stands for itself: no double quote, no backslash, no line break (LF, CR, FF) and no
  NUL, which the CSS reader replaces.
\<close>

definition special_in_css_string :: "char list" where
  "special_in_css_string = [CHR 0x22, CHR 0x5C, CHR 0x0A, CHR 0x0D, CHR 0x0C, CHR 0x00]"

definition selector_safe :: "string \<Rightarrow> bool" where
  "selector_safe n = list_all (\<lambda>c. c \<notin> set special_in_css_string) n"

text \<open>
  Two kinds of names make a selector that is not valid, whatever else the document
  holds, so that \<open>querySelector\<close> throws a \<open>SyntaxError\<close>: a name whose first special
  character is a line break (the string is cut there: a bad string), and a name whose
  first special character is a double quote at its very end (the string closes early and
  the closing quote of the template opens a second string inside the brackets).
\<close>

datatype dom_error = SyntaxError

definition selector_raises :: "string \<Rightarrow> bool" where
  "selector_raises n =
     (case dropWhile (\<lambda>c. c \<notin> set special_in_css_string) n of
        [] \<Rightarrow> False
      | c # rest \<Rightarrow> c \<in> set [CHR 0x0A, CHR 0x0D, CHR 0x0C] \<or> (c = CHR 0x22 \<and> rest = []))"

text \<open>
  For every other name with a special character the selector is some other selector
  (an escape that stands for another character, a second attribute test, a selector
  list, ...) or none; what \<open>querySelector\<close> does with it is the business of the selector
  engine of the host, a parameter \<open>css\<close> of the embedding: given the name and the form,
  it throws or returns the position of a control or \<open>null\<close>.
\<close>

type_synonym selector_engine = "string \<Rightarrow> form \<Rightarrow> dom_error + nat option"

text \<open>
  \<open>form.querySelector(`[name="${n}"]`)\<close>. The result is \<open>Inl\<close> of the error thrown, or
  \<open>Inr\<close> of the position of the control found, \<open>None\<close> for \<open>null\<close>.
\<close>

definition querySelector_name :: "selector_engine \<Rightarrow> form \<Rightarrow> string \<Rightarrow> dom_error + nat option" where
  "querySelector_name css f n =
     (if selector_safe n then Inr (first_named f n)
      else if selector_raises n then Inl SyntaxError
      else css n f)"

text \<open>A template literal prints an absent property as \<open>undefined\<close>.\<close>

definition template_value :: "string option \<Rightarrow> string" where
  "template_value s = (case s of None \<Rightarrow> ''undefined'' | Some t \<Rightarrow> t)"

section \<open>The validator registry\<close>

text \<open>
  \<open>const validators = new Map()\<close>. A JavaScript \<open>Map\<close> keeps its entries in insertion
  order; \<open>set\<close> on a key that is present replaces the value in place, \<open>set\<close> on a new
  key appends an entry; \<open>get\<close> returns \<open>undefined\<close> (here \<open>None\<close>) for a key that is
  absent.
\<close>

type_synonym registry = "(string \<times> validator) list"

fun map_set :: "'k \<Rightarrow> 'v \<Rightarrow> ('k \<times> 'v) list \<Rightarrow> ('k \<times> 'v) list" where
  "map_set k v [] = [(k, v)]"
| "map_set k v ((k', v') # m) =
     (if k' = k then (k, v) # m else (k', v') # map_set k v m)"

fun map_get :: "'k \<Rightarrow> ('k \<times> 'v) list \<Rightarrow> 'v option" where
  "map_get k [] = None"
| "map_get k ((k', v) # m) = (if k' = k then Some v else map_get k m)"

definition validators_new :: registry where
  "validators_new = []"

definition registerValidator :: "string \<Rightarrow> validator \<Rightarrow> registry \<Rightarrow> registry" where
  "registerValidator name fn reg = map_set name fn reg"

definition getValidator :: "string \<Rightarrow> registry \<Rightarrow> validator option" where
  "getValidator name reg = map_get name reg"

text \<open>A run of registrations, the oldest first, applied to a registry.\<close>

definition register_all :: "(string \<times> validator) list \<Rightarrow> registry \<Rightarrow> registry" where
  "register_all regs reg = foldl (\<lambda>r (name, fn). registerValidator name fn r) reg regs"

section \<open>Built-in validators\<close>

text \<open>\<open>a || b\<close> on an optional string: the empty string and \<open>undefined\<close> are falsy.\<close>

definition or_default :: "string option \<Rightarrow> string \<Rightarrow> string" where
  "or_default a b = (case a of None \<Rightarrow> b | Some s \<Rightarrow> if s = [] then b else s)"

text \<open>
  The function registered as \<open>dateRange\<close>. It ignores the value handed to it and
  reads the two controls named by the options from the form; both lookups are made
  before either result is tested, and an error thrown by a lookup leaves the function.
  The registry of the embedding holds validators that return a result; \<open>dateRange\<close> is
  embedded as a function of its own, since its lookups can throw.
\<close>

definition dateRange ::
  "selector_engine \<Rightarrow> (string \<Rightarrow> int option) \<Rightarrow> string \<Rightarrow> options \<Rightarrow> form
     \<Rightarrow> dom_error + vresult" where
  "dateRange css parse value opts f =
     (case querySelector_name css f (template_value (opt_startField opts)) of
        Inl err \<Rightarrow> Inl err
      | Inr startInput \<Rightarrow>
         (case querySelector_name css f (template_value (opt_endField opts)) of
            Inl err \<Rightarrow> Inl err
          | Inr endInput \<Rightarrow>
             Inr (case startInput of
                None \<Rightarrow> \<lparr>valid = True, message = []\<rparr>
              | Some si \<Rightarrow>
                 (case endInput of
                    None \<Rightarrow> \<lparr>valid = True, message = []\<rparr>
                  | Some ei \<Rightarrow>
                     (let startValue = el_value (controls f ! si);
                          endValue = el_value (controls f ! ei)
                      in if startValue = [] \<or> endValue = []
                         then \<lparr>valid = True, message = []\<rparr>
                         else
                          (case parse startValue of
                             None \<Rightarrow> \<lparr>valid = False, message = ''Invalid date format''\<rparr>
                           | Some startDate \<Rightarrow>
                              (case parse endValue of
                                 None \<Rightarrow> \<lparr>valid = False, message = ''Invalid date format''\<rparr>
                               | Some endDate \<Rightarrow>
                                  if endDate \<le> startDate
                                  then \<lparr>valid = False,
                                        message = or_default (opt_message opts)
                                          ''End date must be after start date''\<rparr>
                                  else \<lparr>valid = True, message = []\<rparr>)))))))"

text \<open>
  \<open>validateDateTimeRange\<close> of the helpers module, called on the submit path with the
  two values that \<open>getFormData\<close> extracted (\<open>None\<close>: the form data has no such key).
\<close>

definition validateDateTimeRange ::
  "(string \<Rightarrow> int option) \<Rightarrow> string option \<Rightarrow> string option \<Rightarrow> vresult" where
  "validateDateTimeRange parse startDateTime endDateTime =
     (case (startDateTime, endDateTime) of
        (Some s, Some e) \<Rightarrow>
          if s = [] \<or> e = []
          then \<lparr>valid = False, message = ''Both start and end date/time are required.''\<rparr>
          else
           (case parse s of
              None \<Rightarrow> \<lparr>valid = False, message = ''Invalid date/time format.''\<rparr>
            | Some start \<Rightarrow>
               (case parse e of
                  None \<Rightarrow> \<lparr>valid = False, message = ''Invalid date/time format.''\<rparr>
                | Some end' \<Rightarrow>
                   if end' \<le> start
                   then \<lparr>valid = False,
                         message = ''End date/time must be after start date/time.''\<rparr>
                   else \<lparr>valid = True, message = []\<rparr>))
      | _ \<Rightarrow> \<lparr>valid = False, message = ''Both start and end date/time are required.''\<rparr>)"

section \<open>The validation runner\<close>

text \<open>\<open>applyInvalidState(input, message)\<close>; the message is optional, and falsy when empty.\<close>

definition applyInvalidState :: "nat \<Rightarrow> string option \<Rightarrow> form \<Rightarrow> form" where
  "applyInvalidState i msg f =
     (let input = controls f ! i;
          marked = input\<lparr>el_classes :=
            classList_add ''is-invalid'' (classList_remove ''is-valid'' (el_classes input))\<rparr>
      in case msg of
           None \<Rightarrow> f\<lparr>controls := (controls f)[i := marked]\<rparr>
         | Some m \<Rightarrow>
            if m = [] then f\<lparr>controls := (controls f)[i := marked]\<rparr>
            else f\<lparr>controls := (controls f)[i := marked\<lparr>el_custom := m\<rparr>],
                   feedback_text :=
                     (case el_feedback input of
                        None \<Rightarrow> feedback_text f
                      | Some a \<Rightarrow> (feedback_text f)(a := m))\<rparr>)"

definition applyValidState :: "nat \<Rightarrow> form \<Rightarrow> form" where
  "applyValidState i f =
     (let input = controls f ! i
      in f\<lparr>controls := (controls f)[i := input\<lparr>el_classes :=
             classList_add ''is-valid'' (classList_remove ''is-invalid'' (el_classes input)),
             el_custom := []\<rparr>]\<rparr>)"



text \<open>The name and the options of a configuration entry, as the runner reads them.\<close>

definition config_name :: "config \<Rightarrow> string option" where
  "config_name c = (case c of Bare n \<Rightarrow> Some n | Entry opts \<Rightarrow> opt_name opts)"

definition config_options :: "config \<Rightarrow> options" where
  "config_options c = (case c of Bare n \<Rightarrow> empty_options | Entry opts \<Rightarrow> opts)"

text \<open>\<open>validators.get(validatorName)\<close>; an entry without a name looks up \<open>undefined\<close>.\<close>

definition lookup_validator :: "registry \<Rightarrow> string option \<Rightarrow> validator option" where
  "lookup_validator reg n = (case n of None \<Rightarrow> None | Some name \<Rightarrow> getValidator name reg)"

text \<open>The text of \<open>console.warn(`Validator "${validatorName}" not found`)\<close>.\<close>

definition not_found_warning :: "string option \<Rightarrow> string" where
  "not_found_warning n =
     ''Validator '' @ [CHR 0x22] @ template_value n @ [CHR 0x22] @ '' not found''"

text \<open>
  What a run of the runner leaves behind: the value returned, the form after the run,
  and two traces that the source does not keep but an observer can record: the
  configuration entries whose validator was called, in the order of the calls, and the
  diagnostics written to the console.
\<close>

record outcome =
  returned :: bool
  after :: form
  invoked :: "config list"
  warned :: "string list"

text \<open>
  The loop of \<open>runValidators\<close> over the configuration entries. Validators are pure, so
  the form that each of them reads is the form at the start of the loop.
\<close>

fun custom_loop :: "registry \<Rightarrow> nat \<Rightarrow> form \<Rightarrow> config list \<Rightarrow> outcome" where
  "custom_loop reg i f [] =
     \<lparr>returned = True, after = applyValidState i f, invoked = [], warned = []\<rparr>"
| "custom_loop reg i f (c # cs) =
     (case lookup_validator reg (config_name c) of
        None \<Rightarrow>
          (let r = custom_loop reg i f cs
           in r\<lparr>warned := not_found_warning (config_name c) # warned r\<rparr>)
      | Some validator \<Rightarrow>
          (let result = validator (el_value (controls f ! i)) (config_options c) f
           in if \<not> valid result
              then \<lparr>returned = False,
                    after = applyInvalidState i (Some (message result)) f,
                    invoked = [c], warned = []\<rparr>
              else (let r = custom_loop reg i f cs in r\<lparr>invoked := c # invoked r\<rparr>)))"

text \<open>\<open>runValidators(input, validatorConfigs, form)\<close>, the input being control \<open>i\<close> of the form.\<close>

definition runValidators :: "registry \<Rightarrow> nat \<Rightarrow> config list \<Rightarrow> form \<Rightarrow> outcome" where
  "runValidators reg i validatorConfigs f =
     (if \<not> checkValidity (controls f ! i)
      then \<lparr>returned = False, after = applyInvalidState i None f, invoked = [], warned = []\<rparr>
      else custom_loop reg i f validatorConfigs)"

section \<open>Whole-form validation\<close>

text \<open>
  The state of \<open>validateFormWithCustom\<close> while it walks the entries of the field-validator
  map: the flag \<open>allValid\<close>, the form, and the trace of the runner calls made so far
  (field name and value returned). The registered validators are functions that return
  a result, as the registry documents them; an error can still be thrown by the lookup of
  a field, and it ends the walk.
\<close>

record progress =
  allValid :: bool
  current :: form
  evaluated :: "(string \<times> bool) list"

fun fields_loop ::
  "selector_engine \<Rightarrow> registry \<Rightarrow> (string \<times> config list) list \<Rightarrow> progress
     \<Rightarrow> dom_error + progress" where
  "fields_loop css reg [] st = Inr st"
| "fields_loop css reg ((fieldName, validatorConfigs) # rest) st =
     (case querySelector_name css (current st) fieldName of
        Inl err \<Rightarrow> Inl err
      | Inr None \<Rightarrow> fields_loop css reg rest st
      | Inr (Some i) \<Rightarrow>
          (let r = runValidators reg i validatorConfigs (current st);
               st1 = st\<lparr>current := after r,
                        evaluated := evaluated st @ [(fieldName, returned r)]\<rparr>
           in fields_loop css reg rest
                (if \<not> returned r then st1\<lparr>allValid := False\<rparr> else st1)))"

text \<open>
  \<open>validateFormWithCustom(form, fieldValidators)\<close>; the map is given by its entries in
  the order of \<open>Object.entries\<close>. When the call returns, the value returned is
  \<open>allValid\<close> of the result.
\<close>

definition validateFormWithCustom ::
  "selector_engine \<Rightarrow> registry \<Rightarrow> form \<Rightarrow> (string \<times> config list) list
     \<Rightarrow> dom_error + progress" where
  "validateFormWithCustom css reg f fieldValidators =
     (let st0 =
            (if \<not> form_checkValidity f
             then \<lparr>allValid = False,
                   current = f\<lparr>form_classes := classList_add ''was-validated'' (form_classes f)\<rparr>,
                   evaluated = []\<rparr>
             else \<lparr>allValid = True, current = f, evaluated = []\<rparr>)
      in case fields_loop css reg fieldValidators st0 of
           Inl err \<Rightarrow> Inl err
         | Inr st \<Rightarrow>
             Inr (if \<not> allValid st
                  then st\<lparr>current := (current st)\<lparr>form_classes :=
                         classList_add ''was-validated'' (form_classes (current st))\<rparr>\<rparr>
                  else st))"

section \<open>The completeness sweep\<close>

text \<open>
  \<open>String.prototype.trim\<close> strips white space and line terminators from both ends. Of
  the code units below 256 these are TAB, LF, VT, FF, CR, SP and NBSP.
\<close>

definition js_whitespace :: "char \<Rightarrow> bool" where
  "js_whitespace c =
     (c \<in> set [CHR 0x09, CHR 0x0A, CHR 0x0B, CHR 0x0C, CHR 0x0D, CHR 0x20, CHR 0xA0])"

definition js_trim :: "string \<Rightarrow> string" where
  "js_trim s = rev (dropWhile js_whitespace (rev (dropWhile js_whitespace s)))"

text \<open>The two ways in which \<open>validateFormFields\<close> leaves a required control.\<close>

definition mark_incomplete :: "element \<Rightarrow> element" where
  "mark_incomplete input =
     (let removed = classList_remove ''is-valid'' (el_classes input)
      in input\<lparr>el_classes :=
           (if classList_contains ''was-validated-field'' removed
            then classList_add ''is-invalid'' removed else removed)\<rparr>)"

definition mark_complete :: "element \<Rightarrow> element" where
  "mark_complete input =
     input\<lparr>el_classes :=
       classList_add ''is-valid'' (classList_remove ''is-invalid'' (el_classes input))\<rparr>"

text \<open>The body of the \<open>forEach\<close> over the required controls; the flag \<open>allValid\<close> of the source, here \<open>all_valid\<close>, is threaded through.\<close>

definition sweep_step :: "element \<Rightarrow> bool \<Rightarrow> element \<times> bool" where
  "sweep_step input all_valid =
     (if el_type input = ''select-one''
      then (if el_value input = [] \<or> el_value input = []
            then (mark_incomplete input, False)
            else (mark_complete input, all_valid))
      else (if el_value input = [] \<or> js_trim (el_value input) = []
            then (mark_incomplete input, False)
            else (mark_complete input, all_valid)))"

text \<open>
  The walk over \<open>form.querySelectorAll('[required]')\<close>: the controls without the
  attribute are passed over.
\<close>

fun sweep_loop :: "element list \<Rightarrow> bool \<Rightarrow> element list \<times> bool" where
  "sweep_loop [] all_valid = ([], all_valid)"
| "sweep_loop (input # rest) all_valid =
     (if el_required input
      then (let (input', all_valid') = sweep_step input all_valid;
                (rest', result) = sweep_loop rest all_valid'
            in (input' # rest', result))
      else (let (rest', result) = sweep_loop rest all_valid in (input # rest', result)))"

text \<open>\<open>validateFormFields()\<close> of \<open>initializeForm\<close>: the form after the sweep and the value returned.\<close>

definition validateFormFields :: "form \<Rightarrow> form \<times> bool" where
  "validateFormFields f =
     (let (swept, all_valid) = sweep_loop (controls f) True
      in (f\<lparr>controls := swept,
             submit_disabled :=
               (case submit_disabled f of None \<Rightarrow> None | Some d \<Rightarrow> Some (\<not> all_valid))\<rparr>,
          all_valid))"


section \<open>Toast notifications\<close>

text \<open>
  The values that can reach \<open>showToast\<close> as its message: a string, or something else
  (the message of a server response is whatever the JSON held).
\<close>

datatype jsval = JUndefined | JNull | JBool bool | JString string | JArray "jsval list"

text \<open>
  The string conversion that a template literal applies. An array prints its elements
  separated by commas, \<open>null\<close> and \<open>undefined\<close> elements as nothing.
\<close>

fun join_comma :: "string list \<Rightarrow> string" where
  "join_comma [] = []"
| "join_comma [s] = s"
| "join_comma (s # t # rest) = s @ '','' @ join_comma (t # rest)"

fun js_toString :: "jsval \<Rightarrow> string" where
  "js_toString JUndefined = ''undefined''"
| "js_toString JNull = ''null''"
| "js_toString (JBool b) = (if b then ''true'' else ''false'')"
| "js_toString (JString s) = s"
| "js_toString (JArray xs) =
     join_comma (map (\<lambda>x. if x = JUndefined \<or> x = JNull then [] else js_toString x) xs)"

text \<open>The character class \<open>/[&<>"']/\<close> and the object \<open>map\<close> of \<open>escapeHTML\<close>.\<close>

definition special_chars :: "char list" where
  "special_chars = [CHR ''&'', CHR ''<'', CHR ''>'', CHR 0x22, CHR 0x27]"

definition entity_map :: "(char \<times> string) list" where
  "entity_map =
     [(CHR ''&'', ''&amp;''), (CHR ''<'', ''&lt;''), (CHR ''>'', ''&gt;''),
      (CHR 0x22, ''&quot;''), (CHR 0x27, ''&#039;'')]"

text \<open>\<open>text.replace(/[&<>"']/g, m => map[m])\<close>.\<close>

definition replace_specials :: "string \<Rightarrow> string" where
  "replace_specials s =
     concat (map (\<lambda>m. if m \<in> set special_chars then template_value (map_of entity_map m)
                       else [m]) s)"

definition escapeHTML :: "jsval \<Rightarrow> jsval" where
  "escapeHTML v = (case v of JString s \<Rightarrow> JString (replace_specials s) | _ \<Rightarrow> v)"

text \<open>
  What \<open>showToast\<close> puts between the tags of \<open><div class="toast-body">\<close>: the string
  conversion of \<open>safeMessage = escapeHTML(message)\<close> (the message is \<open>msg\<close> here), at the hole \<open>${safeMessage}\<close> of the
  markup template.
\<close>

definition toast_body :: "jsval \<Rightarrow> string" where
  "toast_body msg = js_toString (escapeHTML msg)"

section \<open>Notions used in the statements\<close>

text \<open>
  What the validator of a configuration entry returns for control \<open>i\<close> of a form, with
  the arguments that the runner hands to it; \<open>None\<close> when the entry names no registered
  validator.
\<close>

definition entry_result :: "registry \<Rightarrow> nat \<Rightarrow> form \<Rightarrow> config \<Rightarrow> vresult option" where
  "entry_result reg i f c =
     map_option (\<lambda>validator. validator (el_value (controls f ! i)) (config_options c) f)
       (lookup_validator reg (config_name c))"

text \<open>
  The validator of the entry returns invalid; and the entries that the loop of the runner
  reaches on a natively valid control: all entries up to and including the first one
  whose validator returns invalid, or all entries when there is none.
\<close>

definition entry_fails :: "registry \<Rightarrow> nat \<Rightarrow> form \<Rightarrow> config \<Rightarrow> bool" where
  "entry_fails reg i f c =
     (case entry_result reg i f c of None \<Rightarrow> False | Some r \<Rightarrow> \<not> valid r)"

definition reached :: "registry \<Rightarrow> nat \<Rightarrow> form \<Rightarrow> config list \<Rightarrow> config list" where
  "reached reg i f cfgs =
     takeWhile (\<lambda>c. \<not> entry_fails reg i f c) cfgs
       @ take 1 (dropWhile (\<lambda>c. \<not> entry_fails reg i f c) cfgs)"

text \<open>The entry names a validator that the registry holds.\<close>

definition registered :: "registry \<Rightarrow> config \<Rightarrow> bool" where
  "registered reg c = (lookup_validator reg (config_name c) \<noteq> None)"




text \<open>The form has a control of the given name.\<close>

definition present :: "form \<Rightarrow> string \<Rightarrow> bool" where
  "present f n = (first_named f n \<noteq> None)"

text \<open>
  The form as the native stage of \<open>validateFormWithCustom\<close> leaves it, and the runner
  calls that the specification asks for: for each entry of the map in order, the field
  is resolved by name; an entry whose field does not exist is passed over; otherwise the
  runner is called for that field with the list of the entry, on the form as the calls
  before it left it. The result is the trace of names and values returned, and the form
  after the last call.
\<close>

definition after_native_check :: "form \<Rightarrow> form" where
  "after_native_check f =
     (if form_checkValidity f then f
      else f\<lparr>form_classes := classList_add ''was-validated'' (form_classes f)\<rparr>)"

fun runner_calls ::
  "registry \<Rightarrow> (string \<times> config list) list \<Rightarrow> form \<Rightarrow> (string \<times> bool) list \<times> form" where
  "runner_calls reg [] f = ([], f)"
| "runner_calls reg ((n, cfgs) # rest) f =
     (case first_named f n of
        None \<Rightarrow> runner_calls reg rest f
      | Some i \<Rightarrow>
          (let (trace, g) = runner_calls reg rest (after (runValidators reg i cfgs f))
           in ((n, returned (runValidators reg i cfgs f)) # trace, g)))"

text \<open>
  A required control counts as empty when it is a single-choice select without a selected
  value, or another control whose value has no character other than white space.
\<close>

definition blank :: "element \<Rightarrow> bool" where
  "blank input =
     (if el_type input = ''select-one'' then el_value input = []
      else list_all js_whitespace (el_value input))"

text \<open>The control carries the marker of a control that the user has touched.\<close>

definition touched :: "element \<Rightarrow> bool" where
  "touched input = (''was-validated-field'' \<in> set (el_classes input))"

text \<open>The entity that stands for a character in HTML text.\<close>

definition entity_of :: "char \<Rightarrow> string" where
  "entity_of c =
     (if c = CHR ''&'' then ''&amp;''
      else if c = CHR ''<'' then ''&lt;''
      else if c = CHR ''>'' then ''&gt;''
      else if c = CHR 0x22 then ''&quot;''
      else if c = CHR 0x27 then ''&#039;''
      else [c])"


section \<open>Sample data\<close>

text \<open>
  Concrete forms, validators and entries on which the theorems below are applied. The
  parser knows three local date-times, read as UTC.
\<close>

definition sample_parse :: "string \<Rightarrow> int option" where
  "sample_parse = map_of
     [(''2025-01-01T09:00'', 1735722000000),
      (''2025-01-01T10:00'', 1735725600000),
      (''2025-01-01T11:00'', 1735729200000)]"

text \<open>A required text control without style classes that validates natively, and a bare form.\<close>

definition sample_control :: "string \<Rightarrow> string \<Rightarrow> element" where
  "sample_control n v =
     \<lparr>el_tag = ''input'', el_name = Some n, el_type = ''text'', el_value = v, el_required = True,
      el_classes = [], el_custom = [], el_constraints_ok = True, el_will_validate = True,
      el_feedback = None\<rparr>"

definition sample_form :: "element list \<Rightarrow> form" where
  "sample_form cs =
     \<lparr>controls = cs, form_classes = [], feedback_text = (\<lambda>a. []), submit_disabled = None\<rparr>"

text \<open>
  A selector engine that finds nothing, for the names that are left to the engine; a
  field name that ends in a double quote; and a set of options that names such a field.
\<close>

definition finds_nothing :: selector_engine where
  "finds_nothing n f = Inr None"



text \<open>The entry and the form of a start/end pair, as the submit path names the fields.\<close>

definition range_options :: options where
  "range_options = \<lparr>opt_name = Some ''dateRange'', opt_startField = Some ''startDateTime'',
     opt_endField = Some ''endDateTime'', opt_message = None\<rparr>"

definition range_form :: "string \<Rightarrow> string \<Rightarrow> form" where
  "range_form s e =
     sample_form [sample_control ''startDateTime'' s, sample_control ''endDateTime'' e]"

text \<open>Validators that always fail with a given message, or always pass, and a registry of them.\<close>

definition reject_with :: "string \<Rightarrow> validator" where
  "reject_with m value opts f = \<lparr>valid = False, message = m\<rparr>"

definition accept_all :: validator where
  "accept_all value opts f = \<lparr>valid = True, message = []\<rparr>"

definition sample_registry :: registry where
  "sample_registry =
     register_all
       [(''first'', reject_with ''first failed''),
        (''second'', reject_with ''second failed''),
        (''silent'', reject_with []),
        (''pass'', accept_all)]
       validators_new"

text \<open>A form with one control and a feedback element that holds a static text.\<close>

definition phone_form :: form where
  "phone_form =
     \<lparr>controls = [(sample_control ''phone'' ''12345'')\<lparr>el_feedback := Some 0\<rparr>],
      form_classes = [], feedback_text = (\<lambda>a. ''Please enter a phone number''),
      submit_disabled = None\<rparr>"



text \<open>
  Three controls, the second of which fails its native constraints, and a map that names
  them and a field that the form does not have.
\<close>

definition three_fields :: form where
  "three_fields =
     sample_form
       [sample_control ''phone'' ''12345'',
        (sample_control ''email'' [])\<lparr>el_constraints_ok := False\<rparr>,
        sample_control ''zip'' ''90210'']"

definition three_entries :: "(string \<times> config list) list" where
  "three_entries =
     [(''phone'', [Bare ''pass'']), (''email'', [Bare ''pass'']),
      (''fax'', [Bare ''first'']), (''zip'', [Bare ''first''])]"

text \<open>
  A form with a submit button and three required controls: one with a value, one with
  white space only, one empty and touched.
\<close>

definition prefilled_form :: form where
  "prefilled_form =
     \<lparr>controls = [sample_control ''name'' ''Ada'', sample_control ''email'' ''  '',
        (sample_control ''zip'' [])\<lparr>el_classes := [''was-validated-field'']\<rparr>],
      form_classes = [], feedback_text = (\<lambda>a. []), submit_disabled = Some False\<rparr>"

section \<open>Registry: lookup after registration\<close>

lemma map_get_map_set_same: "map_get k (map_set k v m) = Some v"
  by (induction m) auto

lemma map_get_map_set_other: "k' \<noteq> k \<Longrightarrow> map_get k' (map_set k v m) = map_get k' m"
  by (induction m) auto

lemma keys_map_set: "set (map fst (map_set k v m)) = insert k (set (map fst m))"
proof (induction m)
  case Nil
  show ?case by simp
next
  case (Cons p m)
  obtain k' v' where p: "p = (k', v')" by (cases p)
  show ?case
  proof (cases "k' = k")
    case True
    with p show ?thesis by simp
  next
    case False
    with p Cons.IH show ?thesis by (simp add: insert_commute)
  qed
qed

lemma one_entry_per_key:
  "distinct (map fst xs) \<Longrightarrow> name \<in> fst ` set xs \<Longrightarrow>
   length (filter (\<lambda>e. fst e = name) xs) = 1"
proof (induction xs)
  case Nil
  then show ?case by simp
next
  case (Cons p xs)
  show ?case
  proof (cases "fst p = name")
    case True
    with Cons.prems have "\<forall>e \<in> set xs. fst e \<noteq> name" by (auto simp: image_iff)
    then have "filter (\<lambda>e. fst e = name) xs = []" by (simp add: filter_empty_conv)
    with True show ?thesis by simp
  next
    case False
    with Cons show ?thesis by auto
  qed
qed

lemma distinct_map_set: "distinct (map fst m) \<Longrightarrow> distinct (map fst (map_set k v m))"
proof (induction m)
  case Nil
  show ?case by simp
next
  case (Cons p m)
  obtain k' v' where p: "p = (k', v')" by (cases p)
  show ?case
  proof (cases "k' = k")
    case True
    with Cons.prems p show ?thesis by simp
  next
    case False
    have "k' \<notin> set (map fst (map_set k v m))"
      using Cons.prems p False by (simp only: keys_map_set) auto
    with Cons p False show ?thesis by simp
  qed
qed

lemma distinct_register_all:
  "distinct (map fst reg) \<Longrightarrow> distinct (map fst (register_all regs reg))"
proof (induction regs arbitrary: reg)
  case Nil
  then show ?case by (simp add: register_all_def)
next
  case (Cons r regs)
  obtain n fn where r: "r = (n, fn)" by (cases r)
  have "distinct (map fst (registerValidator n fn reg))"
    using Cons.prems by (simp add: registerValidator_def distinct_map_set)
  from Cons.IH [OF this] r show ?case by (simp add: register_all_def)
qed

text \<open>
  C8. After \<open>registerValidator(name, fn1)\<close> the lookup of \<open>name\<close> returns \<open>fn1\<close>; after a
  second \<open>registerValidator(name, fn2)\<close> it returns \<open>fn2\<close> (the last write wins); and
  the registry, built from the empty \<open>Map\<close> by any run of registrations, never holds
  two entries under one name: after the two registrations exactly one entry is stored
  under \<open>name\<close>, and the names of all entries are pairwise distinct.
\<close>

theorem registry_last_write_wins:
  "getValidator name (registerValidator name fn1 reg) = Some fn1
   \<and> getValidator name (registerValidator name fn2 (registerValidator name fn1 reg)) = Some fn2
   \<and> distinct (map fst (register_all regs validators_new))
   \<and> length (filter (\<lambda>e. fst e = name)
        (registerValidator name fn2
          (registerValidator name fn1 (register_all regs validators_new)))) = 1"
proof -
  let ?r = "register_all regs validators_new"
  have d: "distinct (map fst ?r)"
    by (rule distinct_register_all) (simp add: validators_new_def)
  let ?r2 = "registerValidator name fn2 (registerValidator name fn1 ?r)"
  have d2: "distinct (map fst ?r2)"
    using d by (simp add: registerValidator_def distinct_map_set)
  have "name \<in> set (map fst ?r2)"
    by (simp only: registerValidator_def keys_map_set) simp
  then have "name \<in> fst ` set ?r2" by simp
  with d2 have "length (filter (\<lambda>e. fst e = name) ?r2) = 1"
    by (rule one_entry_per_key)
  with d show ?thesis
    by (simp add: getValidator_def registerValidator_def map_get_map_set_same)
qed

section \<open>Lookup of controls and of sample validators\<close>





lemma querySelector_name_safe:
  "selector_safe n \<Longrightarrow> querySelector_name css f n = Inr (first_named f n)"
  by (simp add: querySelector_name_def)


lemma sample_names_safe:
  "selector_safe ''startDateTime''" "selector_safe ''endDateTime''" "selector_safe ''phone''"
  "selector_safe ''email''" "selector_safe ''fax''" "selector_safe ''zip''"
  by (simp_all add: selector_safe_def special_in_css_string_def)

lemma sample_lookup:
  "lookup_validator sample_registry (Some ''first'') = Some (reject_with ''first failed'')"
  "lookup_validator sample_registry (Some ''second'') = Some (reject_with ''second failed'')"
  "lookup_validator sample_registry (Some ''silent'') = Some (reject_with [])"
  "lookup_validator sample_registry (Some ''pass'') = Some accept_all"
  "lookup_validator sample_registry (Some ''missing'') = None"
  by (simp_all add: lookup_validator_def getValidator_def sample_registry_def register_all_def
      registerValidator_def validators_new_def)

section \<open>The date-range validator\<close>




section \<open>The date-range check of the submit path\<close>

text \<open>
  C5, as amended. For a form whose start and end controls carry the strings \<open>s\<close> and
  \<open>e\<close>: when both strings are non-empty, \<open>validateDateTimeRange\<close> and \<open>dateRange\<close>
  agree on valid and invalid (on strings that do not parse and on the strict comparison);
  when one of them is empty, \<open>validateDateTimeRange\<close> reports invalid with the message
  \<open>Both start and end date/time are required.\<close> while \<open>dateRange\<close> reports valid.
\<close>

theorem validateDateTimeRange_agrees:
  assumes "querySelector_name css f (template_value (opt_startField opts)) = Inr (Some si)"
    and "querySelector_name css f (template_value (opt_endField opts)) = Inr (Some ei)"
    and "s = el_value (controls f ! si)" and "e = el_value (controls f ! ei)"
  shows "(s \<noteq> [] \<and> e \<noteq> [] \<longrightarrow>
           map_sum id valid (dateRange css parse v opts f)
             = Inr (valid (validateDateTimeRange parse (Some s) (Some e))))
       \<and> (s = [] \<or> e = [] \<longrightarrow>
           validateDateTimeRange parse (Some s) (Some e)
             = \<lparr>valid = False, message = ''Both start and end date/time are required.''\<rparr>
           \<and> dateRange css parse v opts f = Inr \<lparr>valid = True, message = []\<rparr>)"
  using assms
  by (auto simp: validateDateTimeRange_def dateRange_def Let_def split: option.splits)

text \<open>A start after the end, an end that does not parse, and an empty end.\<close>

theorem validateDateTimeRange_agrees_witness:
  "querySelector_name finds_nothing (range_form ''2025-01-01T10:00'' ''2025-01-01T09:00'')
       ''startDateTime'' = Inr (Some 0)
   \<and> querySelector_name finds_nothing (range_form ''2025-01-01T10:00'' ''2025-01-01T09:00'')
       ''endDateTime'' = Inr (Some 1)
   \<and> map_sum id valid (dateRange finds_nothing sample_parse ''2025-01-01T09:00'' range_options
           (range_form ''2025-01-01T10:00'' ''2025-01-01T09:00''))
       = Inr (valid (validateDateTimeRange sample_parse (Some ''2025-01-01T10:00'')
           (Some ''2025-01-01T09:00'')))
   \<and> valid (validateDateTimeRange sample_parse (Some ''2025-01-01T10:00'') (Some ''2025-01-01T09:00''))
       = False
   \<and> map_sum id valid (dateRange finds_nothing sample_parse ''not-a-date'' range_options
           (range_form ''2025-01-01T10:00'' ''not-a-date''))
       = Inr (valid (validateDateTimeRange sample_parse (Some ''2025-01-01T10:00'')
           (Some ''not-a-date'')))
   \<and> validateDateTimeRange sample_parse (Some ''2025-01-01T10:00'') (Some [])
       = \<lparr>valid = False, message = ''Both start and end date/time are required.''\<rparr>
   \<and> dateRange finds_nothing sample_parse [] range_options (range_form ''2025-01-01T10:00'' [])
       = Inr \<lparr>valid = True, message = []\<rparr>"
proof -
  have q: "\<And>s e. querySelector_name finds_nothing (range_form s e)
             (template_value (opt_startField range_options)) = Inr (Some 0)"
    "\<And>s e. querySelector_name finds_nothing (range_form s e)
             (template_value (opt_endField range_options)) = Inr (Some 1)"
    by (simp_all add: querySelector_name_safe sample_names_safe first_named_def range_form_def
        sample_form_def sample_control_def range_options_def template_value_def)
  have q': "\<And>s e. querySelector_name finds_nothing (range_form s e) ''startDateTime'' = Inr (Some 0)"
    "\<And>s e. querySelector_name finds_nothing (range_form s e) ''endDateTime'' = Inr (Some 1)"
    using q by (simp_all add: range_options_def template_value_def)
  have v: "\<And>s e. s = el_value (controls (range_form s e) ! 0)"
    "\<And>s e. e = el_value (controls (range_form s e) ! 1)"
    by (simp_all add: range_form_def sample_form_def sample_control_def)
  note rule = validateDateTimeRange_agrees [OF q v, where parse = sample_parse]
  have a: "map_sum id valid (dateRange finds_nothing sample_parse ''2025-01-01T09:00'' range_options
           (range_form ''2025-01-01T10:00'' ''2025-01-01T09:00''))
       = Inr (valid (validateDateTimeRange sample_parse (Some ''2025-01-01T10:00'')
           (Some ''2025-01-01T09:00'')))"
    using rule [of "''2025-01-01T10:00''" "''2025-01-01T09:00''" "''2025-01-01T09:00''"] by simp
  have b: "valid (validateDateTimeRange sample_parse (Some ''2025-01-01T10:00'') (Some ''2025-01-01T09:00''))
       = False"
    by (simp add: validateDateTimeRange_def sample_parse_def)
  have c: "map_sum id valid (dateRange finds_nothing sample_parse ''not-a-date'' range_options
           (range_form ''2025-01-01T10:00'' ''not-a-date''))
       = Inr (valid (validateDateTimeRange sample_parse (Some ''2025-01-01T10:00'')
           (Some ''not-a-date'')))"
    using rule [of "''2025-01-01T10:00''" "''not-a-date''" "''not-a-date''"] by simp
  have d: "validateDateTimeRange sample_parse (Some ''2025-01-01T10:00'') (Some [])
       = \<lparr>valid = False, message = ''Both start and end date/time are required.''\<rparr>
     \<and> dateRange finds_nothing sample_parse [] range_options (range_form ''2025-01-01T10:00'' [])
       = Inr \<lparr>valid = True, message = []\<rparr>"
    using rule [of "''2025-01-01T10:00''" "[]" "[]"] by simp
  from q' a b c d show ?thesis by blast
qed

text \<open>
  The claim as stated (agreement on every pair of strings) fails on an empty start:
  the registry validator accepts, the submit-path check rejects.
\<close>

theorem validateDateTimeRange_empty_counterexample:
  "querySelector_name finds_nothing (range_form [] ''2025-01-01T11:00'') ''startDateTime''
       = Inr (Some 0)
   \<and> querySelector_name finds_nothing (range_form [] ''2025-01-01T11:00'') ''endDateTime''
       = Inr (Some 1)
   \<and> el_value (controls (range_form [] ''2025-01-01T11:00'') ! 0) = []
   \<and> el_value (controls (range_form [] ''2025-01-01T11:00'') ! 1) = ''2025-01-01T11:00''
   \<and> map_sum id valid (dateRange finds_nothing sample_parse ''2025-01-01T11:00'' range_options
        (range_form [] ''2025-01-01T11:00'')) = Inr True
   \<and> valid (validateDateTimeRange sample_parse (Some []) (Some ''2025-01-01T11:00'')) = False"
  by (simp add: querySelector_name_safe sample_names_safe first_named_def range_form_def
      sample_form_def sample_control_def range_options_def template_value_def dateRange_def
      validateDateTimeRange_def)

section \<open>The runner: first failure\<close>

lemma custom_loop_first_failure:
  "k < length cfgs \<Longrightarrow> entry_result reg i f (cfgs ! k) = Some r \<Longrightarrow> \<not> valid r \<Longrightarrow>
   \<forall>j<k. \<forall>r'. entry_result reg i f (cfgs ! j) = Some r' \<longrightarrow> valid r' \<Longrightarrow>
   custom_loop reg i f cfgs =
     \<lparr>returned = False, after = applyInvalidState i (Some (message r)) f,
      invoked = filter (registered reg) (take (Suc k) cfgs),
      warned = map (\<lambda>c. not_found_warning (config_name c))
                 (filter (\<lambda>c. \<not> registered reg c) (take k cfgs))\<rparr>"
proof (induction cfgs arbitrary: k)
  case Nil
  then show ?case by simp
next
  case (Cons c cs)
  show ?case
  proof (cases k)
    case 0
    with Cons.prems show ?thesis
      by (auto simp: entry_result_def registered_def split: option.splits)
  next
    case (Suc k')
    from Cons.prems Suc have k': "k' < length cs"
      and r: "entry_result reg i f (cs ! k') = Some r" by simp_all
    have first': "\<forall>j<k'. \<forall>r'. entry_result reg i f (cs ! j) = Some r' \<longrightarrow> valid r'"
    proof (intro allI impI)
      fix j r' assume "j < k'" "entry_result reg i f (cs ! j) = Some r'"
      with Cons.prems(4) Suc show "valid r'" by (auto dest!: spec [of _ "Suc j"])
    qed
    note IH = Cons.IH [OF k' r Cons.prems(3) first']
    have head: "\<forall>r'. entry_result reg i f c = Some r' \<longrightarrow> valid r'"
      using Cons.prems(4) Suc by (auto dest!: spec [of _ 0])
    show ?thesis
    proof (cases "lookup_validator reg (config_name c)")
      case None
      with IH Suc show ?thesis by (simp add: registered_def)
    next
      case (Some validator)
      with head have "valid (validator (el_value (controls f ! i)) (config_options c) f)"
        by (simp add: entry_result_def)
      with Some IH Suc show ?thesis by (simp add: registered_def)
    qed
  qed
qed

lemma marked_invalid:
  "i < length (controls f) \<Longrightarrow>
   ''is-invalid'' \<in> set (el_classes (controls (applyInvalidState i msg f) ! i))
   \<and> ''is-valid'' \<notin> set (el_classes (controls (applyInvalidState i msg f) ! i))"
  by (simp add: applyInvalidState_def Let_def classList_add_def classList_remove_def
      split: option.splits)

lemma marked_valid:
  "i < length (controls f) \<Longrightarrow>
   ''is-valid'' \<in> set (el_classes (controls (applyValidState i f) ! i))
   \<and> ''is-invalid'' \<notin> set (el_classes (controls (applyValidState i f) ! i))
   \<and> el_custom (controls (applyValidState i f) ! i) = []"
  by (simp add: applyValidState_def Let_def classList_add_def classList_remove_def)

lemma invalid_message:
  "i < length (controls f) \<Longrightarrow> m \<noteq> [] \<Longrightarrow>
   el_custom (controls (applyInvalidState i (Some m) f) ! i) = m
   \<and> (\<forall>a. el_feedback (controls f ! i) = Some a \<longrightarrow>
         feedback_text (applyInvalidState i (Some m) f) a = m)"
  by (simp add: applyInvalidState_def Let_def)

lemma invalid_no_message:
  "i < length (controls f) \<Longrightarrow> msg = None \<or> msg = Some [] \<Longrightarrow>
   el_custom (controls (applyInvalidState i msg f) ! i) = el_custom (controls f ! i)
   \<and> feedback_text (applyInvalidState i msg f) = feedback_text f"
  by (auto simp: applyInvalidState_def Let_def)

text \<open>
  C1, as amended. Let the control be natively valid and let entry \<open>k\<close> be the first
  entry whose validator returns invalid, with result \<open>r\<close>. Then \<open>runValidators\<close> returns
  false; the validators it called are those of the registered entries up to and including
  entry \<open>k\<close>, so none after it; the control carries \<open>is-invalid\<close> and not \<open>is-valid\<close>;
  if the message of \<open>r\<close> is non-empty it is the custom validity message of the control
  and the text of its feedback element, when it has one; if the message is empty, the
  custom validity message and the feedback texts are what they were before the run.
\<close>

theorem runValidators_short_circuit:
  assumes inp: "i < length (controls f)"
    and native: "checkValidity (controls f ! i)"
    and pos: "k < length cfgs"
    and fails: "entry_result reg i f (cfgs ! k) = Some r" "\<not> valid r"
    and first: "\<forall>j<k. \<forall>r'. entry_result reg i f (cfgs ! j) = Some r' \<longrightarrow> valid r'"
  shows "returned (runValidators reg i cfgs f) = False
    \<and> invoked (runValidators reg i cfgs f) = filter (registered reg) (take (Suc k) cfgs)
    \<and> ''is-invalid'' \<in> set (el_classes (controls (after (runValidators reg i cfgs f)) ! i))
    \<and> ''is-valid'' \<notin> set (el_classes (controls (after (runValidators reg i cfgs f)) ! i))
    \<and> (message r \<noteq> [] \<longrightarrow>
         el_custom (controls (after (runValidators reg i cfgs f)) ! i) = message r
         \<and> (\<forall>a. el_feedback (controls f ! i) = Some a \<longrightarrow>
               feedback_text (after (runValidators reg i cfgs f)) a = message r))
    \<and> (message r = [] \<longrightarrow>
         el_custom (controls (after (runValidators reg i cfgs f)) ! i)
           = el_custom (controls f ! i)
         \<and> feedback_text (after (runValidators reg i cfgs f)) = feedback_text f)"
proof -
  have run: "runValidators reg i cfgs f =
     \<lparr>returned = False, after = applyInvalidState i (Some (message r)) f,
      invoked = filter (registered reg) (take (Suc k) cfgs),
      warned = map (\<lambda>c. not_found_warning (config_name c))
                 (filter (\<lambda>c. \<not> registered reg c) (take k cfgs))\<rparr>"
    using native custom_loop_first_failure [OF pos fails first]
    by (simp add: runValidators_def)
  show ?thesis
    unfolding run
    using marked_invalid [OF inp, of "Some (message r)"] invalid_message [OF inp, of "message r"]
      invalid_no_message [OF inp, of "Some (message r)"]
    by simp
qed

text \<open>Two entries that both fail: only the first is called, and its message is kept.\<close>

theorem runValidators_short_circuit_witness:
  "checkValidity (controls phone_form ! 0)
   \<and> entry_result sample_registry 0 phone_form (Bare ''first'')
       = Some \<lparr>valid = False, message = ''first failed''\<rparr>
   \<and> returned (runValidators sample_registry 0 [Bare ''first'', Bare ''second''] phone_form)
       = False
   \<and> invoked (runValidators sample_registry 0 [Bare ''first'', Bare ''second''] phone_form)
       = [Bare ''first'']
   \<and> el_custom (controls (after
        (runValidators sample_registry 0 [Bare ''first'', Bare ''second''] phone_form)) ! 0)
       = ''first failed''
   \<and> feedback_text (after
        (runValidators sample_registry 0 [Bare ''first'', Bare ''second''] phone_form)) 0
       = ''first failed''"
proof -
  let ?cfgs = "[Bare ''first'', Bare ''second'']"
  let ?r = "\<lparr>valid = False, message = ''first failed''\<rparr>"
  have inp: "0 < length (controls phone_form)" by (simp add: phone_form_def)
  have native: "checkValidity (controls phone_form ! 0)"
    by (simp add: phone_form_def sample_control_def checkValidity_def)
  have pos: "0 < length ?cfgs" by simp
  have res: "entry_result sample_registry 0 phone_form (Bare ''first'') = Some ?r"
    by (simp add: entry_result_def config_name_def sample_lookup reject_with_def)
  then have fails: "entry_result sample_registry 0 phone_form (?cfgs ! 0) = Some ?r" by simp
  have nv: "\<not> valid ?r" by simp
  have first: "\<forall>j<0::nat. \<forall>r'. entry_result sample_registry 0 phone_form (?cfgs ! j) = Some r'
     \<longrightarrow> valid r'" by simp
  have fb: "el_feedback (controls phone_form ! 0) = Some 0"
    by (simp add: phone_form_def sample_control_def)
  have reg: "registered sample_registry (Bare ''first'')"
    by (simp add: registered_def config_name_def sample_lookup)
  from runValidators_short_circuit [OF inp native pos fails nv first] native res fb reg
  show ?thesis by simp
qed

text \<open>
  The claim as stated (the message of the failing validator is mirrored into the feedback
  element) fails for a validator that returns invalid with an empty message: the feedback
  element keeps its text.
\<close>

theorem runValidators_feedback_counterexample:
  "checkValidity (controls phone_form ! 0)
   \<and> entry_result sample_registry 0 phone_form (Bare ''silent'')
       = Some \<lparr>valid = False, message = []\<rparr>
   \<and> returned (runValidators sample_registry 0 [Bare ''silent''] phone_form) = False
   \<and> el_feedback (controls phone_form ! 0) = Some 0
   \<and> feedback_text (after (runValidators sample_registry 0 [Bare ''silent''] phone_form)) 0
       = ''Please enter a phone number''"
  by (simp add: phone_form_def sample_control_def checkValidity_def entry_result_def
      config_name_def config_options_def sample_lookup reject_with_def runValidators_def
      applyInvalidState_def Let_def)

section \<open>The runner: unregistered validators\<close>

lemma custom_loop_all_unregistered:
  "\<forall>c \<in> set cfgs. \<not> registered reg c \<Longrightarrow>
   custom_loop reg i f cfgs =
     \<lparr>returned = True, after = applyValidState i f, invoked = [],
      warned = map (\<lambda>c. not_found_warning (config_name c)) cfgs\<rparr>"
  by (induction cfgs) (auto simp: registered_def)

lemma custom_loop_drop_unregistered:
  "returned (custom_loop reg i f cfgs) = returned (custom_loop reg i f (filter (registered reg) cfgs))
   \<and> after (custom_loop reg i f cfgs) = after (custom_loop reg i f (filter (registered reg) cfgs))
   \<and> invoked (custom_loop reg i f cfgs) = invoked (custom_loop reg i f (filter (registered reg) cfgs))"
  by (induction cfgs) (auto simp: registered_def Let_def split: option.splits)

lemma custom_loop_pass_warnings:
  "returned (custom_loop reg i f cfgs) \<Longrightarrow>
   warned (custom_loop reg i f cfgs)
     = map (\<lambda>c. not_found_warning (config_name c)) (filter (\<lambda>c. \<not> registered reg c) cfgs)
   \<and> invoked (custom_loop reg i f cfgs) = filter (registered reg) cfgs"
  by (induction cfgs) (auto simp: registered_def Let_def split: option.splits if_splits)

lemma map_get_None: "(map_get k m = None) = (k \<notin> fst ` set m)"
  by (induction m) (auto split: if_splits)

lemma reached_Nil: "reached reg i f [] = []"
  by (simp add: reached_def)

lemma reached_Cons:
  "reached reg i f (c # cs) = (if entry_fails reg i f c then [c] else c # reached reg i f cs)"
  by (simp add: reached_def)

lemma unregistered_never_fails: "\<not> registered reg c \<Longrightarrow> \<not> entry_fails reg i f c"
  by (simp add: registered_def entry_fails_def entry_result_def)

lemma custom_loop_reached:
  "invoked (custom_loop reg i f cfgs) = filter (registered reg) (reached reg i f cfgs)
   \<and> warned (custom_loop reg i f cfgs)
       = map (\<lambda>c. not_found_warning (config_name c))
           (filter (\<lambda>c. \<not> registered reg c) (reached reg i f cfgs))
   \<and> returned (custom_loop reg i f cfgs) = (\<not> list_ex (entry_fails reg i f) cfgs)"
proof (induction cfgs)
  case Nil
  show ?case by (simp add: reached_Nil)
next
  case (Cons c cs)
  show ?case
  proof (cases "lookup_validator reg (config_name c)")
    case None
    then have "\<not> registered reg c" "\<not> entry_fails reg i f c"
      by (simp_all add: registered_def entry_fails_def entry_result_def)
    with None Cons show ?thesis by (simp add: reached_Cons Let_def)
  next
    case (Some validator)
    then have r: "registered reg c" by (simp add: registered_def)
    have e: "entry_fails reg i f c
        = (\<not> valid (validator (el_value (controls f ! i)) (config_options c) f))"
      using Some by (simp add: entry_fails_def entry_result_def)
    show ?thesis
    proof (cases "valid (validator (el_value (controls f ! i)) (config_options c) f)")
      case True
      with Some r e Cons show ?thesis by (simp add: reached_Cons Let_def)
    next
      case False
      with Some r e show ?thesis by (simp add: reached_Cons Let_def)
    qed
  qed
qed

text \<open>
  C7, as amended. The lookup returns \<open>None\<close> exactly for the names that the registry does
  not hold (it has no other outcome), and an entry without a registered validator is
  never an entry that fails. Entries whose validator is not registered do not change the
  value returned, the form after the run or the validators called: the run is that of
  the list without them. On a natively valid control the loop reaches the entries up to
  and including the first one whose validator returns invalid (all of them when there is
  none): it calls the validators of the registered entries it reaches, writes one
  diagnostic for each unregistered entry it reaches, in order, and returns true exactly
  when no entry fails; a run that returns true has thus written a diagnostic for every
  unregistered entry. The entries after the first failure, and all entries of a control
  that is not natively valid, are not looked at: no diagnostic is written for them. On a
  natively valid control whose entries are all unregistered, the run returns true, calls
  nothing, writes one diagnostic per entry and leaves the control marked valid with an
  empty custom validity message.
\<close>

theorem unregistered_entries_skipped:
  "(getValidator name reg = None) = (name \<notin> fst ` set reg)
   \<and> (\<forall>c. \<not> registered reg c \<longrightarrow> \<not> entry_fails reg i f c)
   \<and> returned (runValidators reg i cfgs f)
       = returned (runValidators reg i (filter (registered reg) cfgs) f)
   \<and> after (runValidators reg i cfgs f)
       = after (runValidators reg i (filter (registered reg) cfgs) f)
   \<and> invoked (runValidators reg i cfgs f)
       = invoked (runValidators reg i (filter (registered reg) cfgs) f)
   \<and> (checkValidity (controls f ! i) \<longrightarrow>
        warned (runValidators reg i cfgs f)
          = map (\<lambda>c. not_found_warning (config_name c))
              (filter (\<lambda>c. \<not> registered reg c) (reached reg i f cfgs))
        \<and> invoked (runValidators reg i cfgs f) = filter (registered reg) (reached reg i f cfgs)
        \<and> returned (runValidators reg i cfgs f) = (\<not> list_ex (entry_fails reg i f) cfgs))
   \<and> (\<not> checkValidity (controls f ! i) \<longrightarrow>
        warned (runValidators reg i cfgs f) = [] \<and> invoked (runValidators reg i cfgs f) = []
        \<and> returned (runValidators reg i cfgs f) = False)
   \<and> (returned (runValidators reg i cfgs f) \<longrightarrow>
        warned (runValidators reg i cfgs f)
          = map (\<lambda>c. not_found_warning (config_name c))
              (filter (\<lambda>c. \<not> registered reg c) cfgs))
   \<and> (checkValidity (controls f ! i) \<and> (\<forall>c \<in> set cfgs. \<not> registered reg c) \<longrightarrow>
        runValidators reg i cfgs f
          = \<lparr>returned = True, after = applyValidState i f, invoked = [],
             warned = map (\<lambda>c. not_found_warning (config_name c)) cfgs\<rparr>
        \<and> (i < length (controls f) \<longrightarrow>
             ''is-valid'' \<in> set (el_classes (controls (after (runValidators reg i cfgs f)) ! i))
             \<and> ''is-invalid'' \<notin> set (el_classes (controls (after (runValidators reg i cfgs f)) ! i))
             \<and> el_custom (controls (after (runValidators reg i cfgs f)) ! i) = []))"
proof -
  have a: "(getValidator name reg = None) = (name \<notin> fst ` set reg)"
    by (simp add: getValidator_def map_get_None)
  have a': "\<forall>c. \<not> registered reg c \<longrightarrow> \<not> entry_fails reg i f c"
    by (simp add: unregistered_never_fails)
  have b: "returned (runValidators reg i cfgs f)
       = returned (runValidators reg i (filter (registered reg) cfgs) f)
   \<and> after (runValidators reg i cfgs f)
       = after (runValidators reg i (filter (registered reg) cfgs) f)
   \<and> invoked (runValidators reg i cfgs f)
       = invoked (runValidators reg i (filter (registered reg) cfgs) f)"
    using custom_loop_drop_unregistered [of reg i f cfgs] by (simp add: runValidators_def)
  have r: "checkValidity (controls f ! i) \<longrightarrow>
        warned (runValidators reg i cfgs f)
          = map (\<lambda>c. not_found_warning (config_name c))
              (filter (\<lambda>c. \<not> registered reg c) (reached reg i f cfgs))
        \<and> invoked (runValidators reg i cfgs f) = filter (registered reg) (reached reg i f cfgs)
        \<and> returned (runValidators reg i cfgs f) = (\<not> list_ex (entry_fails reg i f) cfgs)"
    using custom_loop_reached [of reg i f cfgs] by (simp add: runValidators_def)
  have n: "\<not> checkValidity (controls f ! i) \<longrightarrow>
        warned (runValidators reg i cfgs f) = [] \<and> invoked (runValidators reg i cfgs f) = []
        \<and> returned (runValidators reg i cfgs f) = False"
    by (simp add: runValidators_def)
  have c: "returned (runValidators reg i cfgs f) \<longrightarrow>
        warned (runValidators reg i cfgs f)
          = map (\<lambda>c. not_found_warning (config_name c))
              (filter (\<lambda>c. \<not> registered reg c) cfgs)"
    using custom_loop_pass_warnings [of reg i f cfgs]
    by (simp add: runValidators_def split: if_splits)
  have d: "checkValidity (controls f ! i) \<and> (\<forall>c \<in> set cfgs. \<not> registered reg c) \<longrightarrow>
        runValidators reg i cfgs f
          = \<lparr>returned = True, after = applyValidState i f, invoked = [],
             warned = map (\<lambda>c. not_found_warning (config_name c)) cfgs\<rparr>"
    using custom_loop_all_unregistered [of cfgs reg i f] by (simp add: runValidators_def)
  have d': "checkValidity (controls f ! i) \<and> (\<forall>c \<in> set cfgs. \<not> registered reg c) \<longrightarrow>
        runValidators reg i cfgs f
          = \<lparr>returned = True, after = applyValidState i f, invoked = [],
             warned = map (\<lambda>c. not_found_warning (config_name c)) cfgs\<rparr>
        \<and> (i < length (controls f) \<longrightarrow>
             ''is-valid'' \<in> set (el_classes (controls (after (runValidators reg i cfgs f)) ! i))
             \<and> ''is-invalid'' \<notin> set (el_classes (controls (after (runValidators reg i cfgs f)) ! i))
             \<and> el_custom (controls (after (runValidators reg i cfgs f)) ! i) = [])"
    using d marked_valid [of i f] by auto
  from a a' b r n c d' show ?thesis by blast
qed

text \<open>
  An unknown name and an entry without a name are skipped with a diagnostic each; an
  unknown name before a failing validator does not hide the failure, and its diagnostic
  is written.
\<close>

theorem unregistered_entries_skipped_witness:
  "checkValidity (controls phone_form ! 0)
   \<and> \<not> registered sample_registry (Bare ''missing'')
   \<and> \<not> registered sample_registry (Entry empty_options)
   \<and> runValidators sample_registry 0 [Bare ''missing'', Entry empty_options] phone_form
       = \<lparr>returned = True, after = applyValidState 0 phone_form, invoked = [],
          warned = [''Validator '' @ [CHR 0x22] @ ''missing'' @ [CHR 0x22] @ '' not found'',
                    ''Validator '' @ [CHR 0x22] @ ''undefined'' @ [CHR 0x22] @ '' not found'']\<rparr>
   \<and> ''is-valid'' \<in> set (el_classes (controls (after
        (runValidators sample_registry 0 [Bare ''missing'', Entry empty_options] phone_form)) ! 0))
   \<and> reached sample_registry 0 phone_form [Bare ''missing'', Bare ''first'', Bare ''second'']
       = [Bare ''missing'', Bare ''first'']
   \<and> returned (runValidators sample_registry 0
        [Bare ''missing'', Bare ''first'', Bare ''second''] phone_form) = False
   \<and> invoked (runValidators sample_registry 0
        [Bare ''missing'', Bare ''first'', Bare ''second''] phone_form) = [Bare ''first'']
   \<and> warned (runValidators sample_registry 0
        [Bare ''missing'', Bare ''first'', Bare ''second''] phone_form)
       = [''Validator '' @ [CHR 0x22] @ ''missing'' @ [CHR 0x22] @ '' not found'']"
proof -
  let ?cfgs = "[Bare ''missing'', Entry empty_options]"
  let ?cfgs2 = "[Bare ''missing'', Bare ''first'', Bare ''second'']"
  have native: "checkValidity (controls phone_form ! 0)"
    by (simp add: phone_form_def sample_control_def checkValidity_def)
  have u1: "\<not> registered sample_registry (Bare ''missing'')"
    by (simp add: registered_def config_name_def sample_lookup)
  have u2: "\<not> registered sample_registry (Entry empty_options)"
    by (simp add: registered_def config_name_def empty_options_def lookup_validator_def)
  note unreg = u1 u2
  have reg: "registered sample_registry (Bare ''first'')"
    by (simp add: registered_def config_name_def sample_lookup)
  have fails: "\<not> entry_fails sample_registry 0 phone_form (Bare ''missing'')"
    "entry_fails sample_registry 0 phone_form (Bare ''first'')"
    by (simp_all add: entry_fails_def entry_result_def config_name_def sample_lookup reject_with_def)
  have rch: "reached sample_registry 0 phone_form ?cfgs2 = [Bare ''missing'', Bare ''first'']"
    using fails by (simp add: reached_Cons)
  have inp: "0 < length (controls phone_form)" by (simp add: phone_form_def)
  have all_unreg: "\<forall>c \<in> set ?cfgs. \<not> registered sample_registry c"
    using unreg by simp
  note rule = unregistered_entries_skipped [of "''missing''" sample_registry 0 phone_form]
  note last = rule [of ?cfgs, THEN conjunct2, THEN conjunct2, THEN conjunct2, THEN conjunct2,
      THEN conjunct2, THEN conjunct2, THEN conjunct2, THEN conjunct2]
  from last native all_unreg inp
  have one: "runValidators sample_registry 0 ?cfgs phone_form
       = \<lparr>returned = True, after = applyValidState 0 phone_form, invoked = [],
          warned = [''Validator '' @ [CHR 0x22] @ ''missing'' @ [CHR 0x22] @ '' not found'',
                    ''Validator '' @ [CHR 0x22] @ ''undefined'' @ [CHR 0x22] @ '' not found'']\<rparr>
   \<and> ''is-valid'' \<in> set (el_classes (controls (after
        (runValidators sample_registry 0 ?cfgs phone_form)) ! 0))"
    using marked_valid [OF inp]
    by (simp add: not_found_warning_def config_name_def empty_options_def template_value_def)
  note mid = rule [of ?cfgs2, THEN conjunct2, THEN conjunct2, THEN conjunct2, THEN conjunct2,
      THEN conjunct2, THEN conjunct1]
  from mid native rch unreg reg fails
  have two: "returned (runValidators sample_registry 0 ?cfgs2 phone_form) = False
    \<and> invoked (runValidators sample_registry 0 ?cfgs2 phone_form) = [Bare ''first'']
    \<and> warned (runValidators sample_registry 0 ?cfgs2 phone_form)
       = [''Validator '' @ [CHR 0x22] @ ''missing'' @ [CHR 0x22] @ '' not found'']"
    by (simp add: not_found_warning_def config_name_def template_value_def)
  from native unreg one rch two show ?thesis by blast
qed

text \<open>
  The claim as stated (a diagnostic for every entry whose name is not registered) fails
  for an unregistered entry that stands after a failing validator: the loop has returned
  before it, and nothing is written.
\<close>

theorem unreached_entry_counterexample:
  "checkValidity (controls phone_form ! 0)
   \<and> registered sample_registry (Bare ''missing'') = False
   \<and> returned (runValidators sample_registry 0 [Bare ''first'', Bare ''missing''] phone_form)
       = False
   \<and> warned (runValidators sample_registry 0 [Bare ''first'', Bare ''missing''] phone_form) = []"
  by (simp add: phone_form_def sample_control_def checkValidity_def runValidators_def
      registered_def config_name_def sample_lookup reject_with_def)

section \<open>Whole-form validation: every listed field is evaluated\<close>

lemma map_update_same: "g x = g (xs ! i) \<Longrightarrow> map g (xs[i := x]) = map g xs"
  by (metis list_update_id map_update)

lemma names_applyInvalidState:
  "map el_name (controls (applyInvalidState i msg f)) = map el_name (controls f)"
  by (simp add: applyInvalidState_def Let_def map_update_same split: option.splits)

lemma names_applyValidState:
  "map el_name (controls (applyValidState i f)) = map el_name (controls f)"
  by (simp add: applyValidState_def Let_def map_update_same)

lemma frame_applyInvalidState:
  "form_classes (applyInvalidState i msg f) = form_classes f"
  by (simp add: applyInvalidState_def Let_def split: option.splits)

lemma frame_applyValidState: "form_classes (applyValidState i f) = form_classes f"
  by (simp add: applyValidState_def Let_def)

lemma custom_loop_after:
  "after (custom_loop reg i f cfgs) = applyValidState i f
   \<or> (\<exists>m. after (custom_loop reg i f cfgs) = applyInvalidState i (Some m) f)"
  by (induction cfgs) (auto simp: Let_def split: option.splits)

lemma runValidators_after:
  "after (runValidators reg i cfgs f) = applyValidState i f
   \<or> (\<exists>m. after (runValidators reg i cfgs f) = applyInvalidState i m f)"
  using custom_loop_after [of reg i f cfgs] by (auto simp: runValidators_def)

lemma names_runValidators:
  "map el_name (controls (after (runValidators reg i cfgs f))) = map el_name (controls f)"
  using runValidators_after [of reg i cfgs f]
  by (auto simp: names_applyInvalidState names_applyValidState)

lemma frame_runValidators: "form_classes (after (runValidators reg i cfgs f)) = form_classes f"
  using runValidators_after [of reg i cfgs f]
  by (auto simp: frame_applyInvalidState frame_applyValidState)








lemma runner_calls_names:
  "map el_name (controls (snd (runner_calls reg fv f))) = map el_name (controls f)
   \<and> form_classes (snd (runner_calls reg fv f)) = form_classes f"
proof (induction fv arbitrary: f)
  case Nil
  show ?case by simp
next
  case (Cons p fv)
  obtain n cfgs where p: "p = (n, cfgs)" by (cases p)
  show ?case
  proof (cases "first_named f n")
    case None
    with Cons.IH [of f] p show ?thesis by simp
  next
    case (Some i)
    with Cons.IH [of "after (runValidators reg i cfgs f)"] p show ?thesis
      by (simp add: split_beta names_runValidators frame_runValidators)
  qed
qed





lemma fields_loop_safe:
  "\<forall>n \<in> set (map fst fv). selector_safe n \<Longrightarrow>
   fields_loop css reg fv st
     = Inr (st\<lparr>allValid := allValid st \<and> list_all snd (fst (runner_calls reg fv (current st))),
               current := snd (runner_calls reg fv (current st)),
               evaluated := evaluated st @ fst (runner_calls reg fv (current st))\<rparr>)"
proof (induction fv arbitrary: st)
  case Nil
  show ?case by simp
next
  case (Cons p fv)
  obtain n cfgs where p: "p = (n, cfgs)" by (cases p)
  from Cons.prems p have safe: "selector_safe n" and rest: "\<forall>m \<in> set (map fst fv). selector_safe m"
    by simp_all
  have q: "querySelector_name css (current st) n = Inr (first_named (current st) n)"
    using safe by (rule querySelector_name_safe)
  show ?case
  proof (cases "first_named (current st) n")
    case None
    with Cons.IH [OF rest, of st] p q show ?thesis by simp
  next
    case (Some i)
    let ?r = "runValidators reg i cfgs (current st)"
    let ?st1 = "st\<lparr>current := after ?r, evaluated := evaluated st @ [(n, returned ?r)]\<rparr>"
    let ?st2 = "if \<not> returned ?r then ?st1\<lparr>allValid := False\<rparr> else ?st1"
    have step: "fields_loop css reg (p # fv) st = fields_loop css reg fv ?st2"
      using p q Some by (simp add: Let_def)
    have cur: "current ?st2 = after ?r" by simp
    show ?thesis
      unfolding step Cons.IH [OF rest, of ?st2]
      using p Some by (auto simp: split_beta)
  qed
qed

lemma fields_loop_classes:
  "fields_loop css reg fv st = Inr R \<Longrightarrow>
   form_classes (current R) = form_classes (current st) \<and> (allValid R \<longrightarrow> allValid st)"
proof (induction fv arbitrary: st)
  case Nil
  then show ?case by simp
next
  case (Cons p fv)
  obtain n cfgs where p: "p = (n, cfgs)" by (cases p)
  show ?case
  proof (cases "querySelector_name css (current st) n")
    case (Inl err)
    with Cons.prems p show ?thesis by simp
  next
    case (Inr found)
    show ?thesis
    proof (cases found)
      case None
      with Cons.prems p Inr have "fields_loop css reg fv st = Inr R" by simp
      from Cons.IH [OF this] show ?thesis .
    next
      case (Some i)
      let ?r = "runValidators reg i cfgs (current st)"
      let ?st1 = "st\<lparr>current := after ?r, evaluated := evaluated st @ [(n, returned ?r)]\<rparr>"
      let ?st2 = "if \<not> returned ?r then ?st1\<lparr>allValid := False\<rparr> else ?st1"
      have "fields_loop css reg fv ?st2 = Inr R"
        using Cons.prems p Inr Some by (simp add: Let_def)
      from Cons.IH [OF this] show ?thesis
        by (auto simp: frame_runValidators split: if_splits)
    qed
  qed
qed

lemma validateFormWithCustom_safe:
  assumes "\<forall>n \<in> set (map fst fv). selector_safe n"
  shows "\<exists>R. validateFormWithCustom css reg f fv = Inr R
    \<and> allValid R = (form_checkValidity f \<and> list_all snd (evaluated R))
    \<and> evaluated R = fst (runner_calls reg fv (after_native_check f))
    \<and> current R =
         (if allValid R then snd (runner_calls reg fv (after_native_check f))
          else (snd (runner_calls reg fv (after_native_check f)))\<lparr>form_classes :=
                 classList_add ''was-validated''
                   (form_classes (snd (runner_calls reg fv (after_native_check f))))\<rparr>)"
proof -
  let ?f0 = "after_native_check f"
  let ?st0 = "if \<not> form_checkValidity f
     then \<lparr>allValid = False,
           current = f\<lparr>form_classes := classList_add ''was-validated'' (form_classes f)\<rparr>,
           evaluated = []\<rparr>
     else \<lparr>allValid = True, current = f, evaluated = []\<rparr>"
  have c0: "current ?st0 = ?f0" "allValid ?st0 = form_checkValidity f" "evaluated ?st0 = []"
    by (simp_all add: after_native_check_def)
  have loop: "fields_loop css reg fv ?st0
     = Inr (?st0\<lparr>allValid := allValid ?st0 \<and> list_all snd (fst (runner_calls reg fv (current ?st0))),
               current := snd (runner_calls reg fv (current ?st0)),
               evaluated := evaluated ?st0 @ fst (runner_calls reg fv (current ?st0))\<rparr>)"
    by (rule fields_loop_safe [OF assms])
  show ?thesis
    unfolding validateFormWithCustom_def Let_def loop c0
    by (simp add: after_native_check_def)
qed

lemma three_fields_present:
  "present three_fields ''phone''" "present three_fields ''email''"
  "\<not> present three_fields ''fax''" "present three_fields ''zip''"
  by (simp_all add: present_def first_named_def three_fields_def sample_form_def
      sample_control_def)

lemma three_fields_native: "\<not> form_checkValidity three_fields"
  by (simp add: form_checkValidity_def checkValidity_def three_fields_def sample_form_def
      sample_control_def)

lemma three_entries_safe: "\<forall>n \<in> set (map fst three_entries). selector_safe n"
  by (simp add: three_entries_def sample_names_safe)




text \<open>
  C4, as amended. When \<open>validateFormWithCustom\<close> returns false, the form carries the
  marker \<open>was-validated\<close> afterwards; when it returns true, the class list of the form is
  unchanged, so the marker is there only if it was there before the call.
\<close>

theorem validateFormWithCustom_marker:
  assumes "validateFormWithCustom css reg f fv = Inr R"
  shows "(\<not> allValid R \<longrightarrow> ''was-validated'' \<in> set (form_classes (current R)))
   \<and> (allValid R \<longrightarrow> form_classes (current R) = form_classes f)"
proof -
  let ?marked = "f\<lparr>form_classes := classList_add ''was-validated'' (form_classes f)\<rparr>"
  let ?st0 = "if \<not> form_checkValidity f
     then \<lparr>allValid = False, current = ?marked, evaluated = []\<rparr>
     else \<lparr>allValid = True, current = f, evaluated = []\<rparr>"
  from assms obtain st where st: "fields_loop css reg fv ?st0 = Inr st"
    and R: "R = (if \<not> allValid st
                  then st\<lparr>current := (current st)\<lparr>form_classes :=
                         classList_add ''was-validated'' (form_classes (current st))\<rparr>\<rparr>
                  else st)"
    by (auto simp: validateFormWithCustom_def Let_def split: sum.splits)
  from fields_loop_classes [OF st]
  have c: "form_classes (current st) = form_classes (current ?st0)"
    and v: "allValid st \<longrightarrow> allValid ?st0" by simp_all
  show ?thesis
    using c v unfolding R by (auto simp: classList_add_def split: if_splits)
qed

text \<open>A call that returns false, and a call that returns true.\<close>

theorem validateFormWithCustom_marker_witness:
  "(\<exists>R. validateFormWithCustom finds_nothing sample_registry three_fields three_entries = Inr R
      \<and> allValid R = False \<and> ''was-validated'' \<in> set (form_classes (current R)))
   \<and> (\<exists>R. validateFormWithCustom finds_nothing sample_registry phone_form
           [(''phone'', [Bare ''pass''])] = Inr R
      \<and> allValid R = True \<and> form_classes (current R) = form_classes phone_form)"
proof -
  from validateFormWithCustom_safe [OF three_entries_safe, of finds_nothing sample_registry
      three_fields]
  obtain R where R:
    "validateFormWithCustom finds_nothing sample_registry three_fields three_entries = Inr R"
    "allValid R = (form_checkValidity three_fields \<and> list_all snd (evaluated R))"
    by blast
  have a: "allValid R = False" using R(2) three_fields_native by simp
  from validateFormWithCustom_marker [OF R(1)] a
  have one: "''was-validated'' \<in> set (form_classes (current R))" by simp
  have safe: "\<forall>n \<in> set (map fst [(''phone'', [Bare ''pass''])]). selector_safe n"
    by (simp add: sample_names_safe)
  from validateFormWithCustom_safe [OF safe, of finds_nothing sample_registry phone_form]
  obtain S where S:
    "validateFormWithCustom finds_nothing sample_registry phone_form
       [(''phone'', [Bare ''pass''])] = Inr S"
    "allValid S = (form_checkValidity phone_form \<and> list_all snd (evaluated S))"
    "evaluated S = fst (runner_calls sample_registry [(''phone'', [Bare ''pass''])]
       (after_native_check phone_form))"
    by blast
  have "evaluated S = [(''phone'', True)]"
    unfolding S(3)
    by (simp add: after_native_check_def form_checkValidity_def checkValidity_def
        phone_form_def sample_control_def first_named_def runValidators_def
        config_name_def sample_lookup accept_all_def)
  moreover have "form_checkValidity phone_form"
    by (simp add: form_checkValidity_def checkValidity_def phone_form_def sample_control_def)
  ultimately have b: "allValid S = True" using S(2) by simp
  from validateFormWithCustom_marker [OF S(1)] b
  have two: "form_classes (current S) = form_classes phone_form" by simp
  from R(1) a one S(1) b two show ?thesis by blast
qed

text \<open>
  The claim as stated (the marker is set whatever the result) fails on a valid form: the
  call returns true and the form has no marker.
\<close>

theorem validateFormWithCustom_marker_counterexample:
  "map_sum id allValid
     (validateFormWithCustom finds_nothing sample_registry phone_form
        [(''phone'', [Bare ''pass''])]) = Inr True
   \<and> map_sum id (form_classes \<circ> current)
     (validateFormWithCustom finds_nothing sample_registry phone_form
        [(''phone'', [Bare ''pass''])]) = Inr []"
  by (simp add: validateFormWithCustom_def Let_def form_checkValidity_def checkValidity_def
      phone_form_def sample_control_def querySelector_name_safe sample_names_safe
      first_named_def runValidators_def config_name_def sample_lookup accept_all_def
      applyValidState_def)

section \<open>The completeness sweep: styles and the submit button\<close>

lemma all_dropWhile: "(\<forall>x \<in> set (dropWhile P s). P x) = (\<forall>x \<in> set s. P x)"
  by (induction s) auto

lemma js_trim_empty: "(js_trim s = []) = list_all js_whitespace s"
  by (simp add: js_trim_def list_all_iff all_dropWhile)

lemma sweep_step_blank:
  "sweep_step input a = (if blank input then (mark_incomplete input, False)
                         else (mark_complete input, a))"
  by (auto simp: sweep_step_def blank_def js_trim_empty)

lemma sweep_loop_result:
  "fst (sweep_loop es a)
     = map (\<lambda>e. if el_required e then (if blank e then mark_incomplete e else mark_complete e)
                 else e) es
   \<and> snd (sweep_loop es a) = (a \<and> list_all (\<lambda>e. el_required e \<longrightarrow> \<not> blank e) es)"
  by (induction es arbitrary: a) (auto simp: sweep_step_blank split_beta Let_def)

lemma mark_incomplete_classes:
  "el_classes (mark_incomplete e)
     = (if touched e then classList_add ''is-invalid'' (classList_remove ''is-valid'' (el_classes e))
        else classList_remove ''is-valid'' (el_classes e))"
  by (auto simp: mark_incomplete_def Let_def touched_def classList_contains_def
      classList_remove_def)

text \<open>
  C6, as amended. The sweep keeps the controls in place and leaves those that are not
  required as they are. A required control that is empty loses \<open>is-valid\<close>, and gains
  \<open>is-invalid\<close> only when it is touched: on an untouched one the sweep does nothing but
  remove \<open>is-valid\<close>. A required control that is not empty gains \<open>is-valid\<close> and loses
  \<open>is-invalid\<close>, touched or not. The value returned says that every required control is
  non-empty, and the submit button, when the form has one, is disabled exactly when the
  value returned is false.
\<close>

theorem sweep_styles_and_submit:
  "length (controls (fst (validateFormFields f))) = length (controls f)
   \<and> snd (validateFormFields f) = list_all (\<lambda>e. el_required e \<longrightarrow> \<not> blank e) (controls f)
   \<and> submit_disabled (fst (validateFormFields f))
       = (case submit_disabled f of None \<Rightarrow> None
          | Some d \<Rightarrow> Some (\<not> list_all (\<lambda>e. el_required e \<longrightarrow> \<not> blank e) (controls f)))
   \<and> (\<forall>i < length (controls f).
        (\<not> el_required (controls f ! i) \<longrightarrow>
           controls (fst (validateFormFields f)) ! i = controls f ! i)
      \<and> (el_required (controls f ! i) \<and> blank (controls f ! i) \<and> \<not> touched (controls f ! i) \<longrightarrow>
           el_classes (controls (fst (validateFormFields f)) ! i)
             = classList_remove ''is-valid'' (el_classes (controls f ! i)))
      \<and> (el_required (controls f ! i) \<and> blank (controls f ! i) \<and> touched (controls f ! i) \<longrightarrow>
           ''is-invalid'' \<in> set (el_classes (controls (fst (validateFormFields f)) ! i))
           \<and> ''is-valid'' \<notin> set (el_classes (controls (fst (validateFormFields f)) ! i)))
      \<and> (el_required (controls f ! i) \<and> \<not> blank (controls f ! i) \<longrightarrow>
           ''is-valid'' \<in> set (el_classes (controls (fst (validateFormFields f)) ! i))
           \<and> ''is-invalid'' \<notin> set (el_classes (controls (fst (validateFormFields f)) ! i))))"
proof -
  let ?g = "\<lambda>e. if el_required e then (if blank e then mark_incomplete e else mark_complete e)
                 else e"
  have c: "controls (fst (validateFormFields f)) = map ?g (controls f)"
    using sweep_loop_result [of "controls f" True]
    by (simp add: validateFormFields_def split_beta)
  have r: "snd (validateFormFields f)
     = list_all (\<lambda>e. el_required e \<longrightarrow> \<not> blank e) (controls f)"
    using sweep_loop_result [of "controls f" True]
    by (simp add: validateFormFields_def split_beta)
  have s: "submit_disabled (fst (validateFormFields f))
       = (case submit_disabled f of None \<Rightarrow> None
          | Some d \<Rightarrow> Some (\<not> list_all (\<lambda>e. el_required e \<longrightarrow> \<not> blank e) (controls f)))"
    using sweep_loop_result [of "controls f" True]
    by (simp add: validateFormFields_def split_beta)
  have e: "\<And>i. i < length (controls f) \<Longrightarrow>
     controls (fst (validateFormFields f)) ! i = ?g (controls f ! i)"
    by (simp add: c)
  show ?thesis
    unfolding r s
    by (auto simp: e c mark_incomplete_classes mark_complete_def classList_add_def
        classList_remove_def)
qed

text \<open>
  An untouched control with white space only, a touched control that is empty, an
  untouched control with a value, and the submit button.
\<close>

theorem sweep_styles_and_submit_witness:
  "el_required (controls prefilled_form ! 1)
   \<and> blank (controls prefilled_form ! 1) \<and> \<not> touched (controls prefilled_form ! 1)
   \<and> el_classes (controls (fst (validateFormFields prefilled_form)) ! 1) = []
   \<and> blank (controls prefilled_form ! 2) \<and> touched (controls prefilled_form ! 2)
   \<and> ''is-invalid'' \<in> set (el_classes (controls (fst (validateFormFields prefilled_form)) ! 2))
   \<and> blank (controls prefilled_form ! 0) = False
   \<and> ''is-valid'' \<in> set (el_classes (controls (fst (validateFormFields prefilled_form)) ! 0))
   \<and> snd (validateFormFields prefilled_form) = False
   \<and> submit_disabled (fst (validateFormFields prefilled_form)) = Some True"
proof -
  have zero: "el_required (controls prefilled_form ! 0)" "\<not> blank (controls prefilled_form ! 0)"
    "0 < length (controls prefilled_form)"
    by (simp_all add: prefilled_form_def sample_control_def blank_def js_whitespace_def)
  have req: "el_required (controls prefilled_form ! 1)" "el_required (controls prefilled_form ! 2)"
    by (simp_all add: prefilled_form_def sample_control_def)
  have b: "blank (controls prefilled_form ! 1)" "blank (controls prefilled_form ! 2)"
    by (simp_all add: prefilled_form_def sample_control_def blank_def js_whitespace_def)
  have t: "\<not> touched (controls prefilled_form ! 1)" "touched (controls prefilled_form ! 2)"
    by (simp_all add: prefilled_form_def sample_control_def touched_def)
  have len: "1 < length (controls prefilled_form)" "2 < length (controls prefilled_form)"
    by (simp_all add: prefilled_form_def)
  have cls: "classList_remove ''is-valid'' (el_classes (controls prefilled_form ! 1)) = []"
    by (simp add: prefilled_form_def sample_control_def classList_remove_def)
  have sub: "submit_disabled prefilled_form = Some False"
    by (simp add: prefilled_form_def)
  have all: "\<not> list_all (\<lambda>e. el_required e \<longrightarrow> \<not> blank e) (controls prefilled_form)"
    using req(1) b(1) len(1) by (auto simp: list_all_length)
  note rule = sweep_styles_and_submit [of prefilled_form]
  from rule all have r: "snd (validateFormFields prefilled_form) = False" by simp
  from rule all sub have s: "submit_disabled (fst (validateFormFields prefilled_form)) = Some True"
    by simp
  from rule have per: "\<forall>i < length (controls prefilled_form).
        (el_required (controls prefilled_form ! i) \<and> blank (controls prefilled_form ! i)
           \<and> \<not> touched (controls prefilled_form ! i) \<longrightarrow>
           el_classes (controls (fst (validateFormFields prefilled_form)) ! i)
             = classList_remove ''is-valid'' (el_classes (controls prefilled_form ! i)))
      \<and> (el_required (controls prefilled_form ! i) \<and> blank (controls prefilled_form ! i)
           \<and> touched (controls prefilled_form ! i) \<longrightarrow>
           ''is-invalid'' \<in> set (el_classes (controls (fst (validateFormFields prefilled_form)) ! i)))"
    by blast
  from per len(1) req(1) b(1) t(1) cls
  have one: "el_classes (controls (fst (validateFormFields prefilled_form)) ! 1) = []" by simp
  from per len(2) req(2) b(2) t(2)
  have two: "''is-invalid'' \<in> set (el_classes (controls (fst (validateFormFields prefilled_form)) ! 2))"
    by blast
  from rule zero
  have three: "''is-valid'' \<in> set (el_classes (controls (fst (validateFormFields prefilled_form)) ! 0))"
    by blast
  from req b t one two three zero r s show ?thesis by blast
qed

text \<open>
  The claim as stated (the sweep applies neither style to a required control that was
  never touched) fails on an untouched control that has a value: it is marked valid.
\<close>

theorem sweep_untouched_counterexample:
  "el_required (controls prefilled_form ! 0)
   \<and> ''was-validated-field'' \<notin> set (el_classes (controls prefilled_form ! 0))
   \<and> ''is-valid'' \<notin> set (el_classes (controls prefilled_form ! 0))
   \<and> ''is-valid'' \<in> set (el_classes (controls (fst (validateFormFields prefilled_form)) ! 0))"
  by (simp add: prefilled_form_def sample_control_def validateFormFields_def sweep_step_def
      js_trim_def js_whitespace_def mark_complete_def mark_incomplete_def classList_add_def
      classList_remove_def classList_contains_def Let_def)

section \<open>The runner: a custom validity message left in place\<close>











section \<open>Toast notifications: what reaches the toast body\<close>

lemma replace_specials_entities: "replace_specials s = concat (map entity_of s)"
proof -
  have "\<And>m. (if m \<in> set special_chars then template_value (map_of entity_map m) else [m])
      = entity_of m"
    by (simp add: special_chars_def entity_map_def template_value_def entity_of_def)
  then show ?thesis by (simp add: replace_specials_def)
qed

lemma entity_of_no_markup:
  "CHR ''<'' \<notin> set (entity_of c) \<and> CHR ''>'' \<notin> set (entity_of c)
   \<and> CHR 0x22 \<notin> set (entity_of c) \<and> CHR 0x27 \<notin> set (entity_of c)"
  by (simp add: entity_of_def)

lemma entity_of_cancel:
  "entity_of a @ u = entity_of b @ v \<Longrightarrow> a = b \<and> u = v"
  by (auto simp: entity_of_def split: if_splits)

lemma entities_injective:
  "concat (map entity_of s) = concat (map entity_of t) \<Longrightarrow> s = t"
proof (induction s arbitrary: t)
  case Nil
  then show ?case by (cases t) (auto simp: entity_of_def split: if_splits)
next
  case (Cons a s)
  show ?case
  proof (cases t)
    case Nil
    with Cons.prems show ?thesis by (auto simp: entity_of_def split: if_splits)
  next
    case (Cons b t')
    with Cons.prems have "entity_of a @ concat (map entity_of s)
        = entity_of b @ concat (map entity_of t')" by simp
    from entity_of_cancel [OF this] Cons.IH [of t'] Cons show ?thesis by simp
  qed
qed

text \<open>
  What holds of the code: for every message that is a string, the text that \<open>showToast\<close>
  puts into the toast body is the message with every \<open>&\<close>, \<open><\<close>, \<open>>\<close>, double quote and
  single quote replaced by its entity and every other character kept; it contains no
  \<open><\<close>, no \<open>>\<close> and no quote; and two different messages never give the same text. The
  messages \<open>undefined\<close>, \<open>null\<close>, \<open>true\<close> and \<open>false\<close> print as these words.
\<close>

lemma toast_body_escaped:
  "toast_body (JString s) = concat (map entity_of s)
   \<and> CHR ''<'' \<notin> set (toast_body (JString s)) \<and> CHR ''>'' \<notin> set (toast_body (JString s))
   \<and> CHR 0x22 \<notin> set (toast_body (JString s)) \<and> CHR 0x27 \<notin> set (toast_body (JString s))
   \<and> (toast_body (JString s) = toast_body (JString t) \<longrightarrow> s = t)"
proof -
  have b: "\<And>u. toast_body (JString u) = concat (map entity_of u)"
    by (simp add: toast_body_def escapeHTML_def replace_specials_entities)
  have "toast_body (JString s) = toast_body (JString t) \<longrightarrow> s = t"
    using entities_injective [of s t] by (simp add: b)
  then show ?thesis
    using entity_of_no_markup by (simp add: b)
qed

lemma toast_body_documented_example:
  "toast_body (JString (''<script>alert('' @ [CHR 0x22] @ ''XSS'' @ [CHR 0x22] @ '')</script>''))
     = ''&lt;script&gt;alert(&quot;XSS&quot;)&lt;/script&gt;''"
  by (simp add: toast_body_escaped entity_of_def)

lemma toast_body_scalars:
  "toast_body JUndefined = ''undefined'' \<and> toast_body JNull = ''null''
   \<and> toast_body (JBool True) = ''true'' \<and> toast_body (JBool False) = ''false''"
  by (simp add: toast_body_def escapeHTML_def)

text \<open>
  C9. The claim asks that the toast body holds inert text for every message value,
  strings or not, and the documentation of \<open>showToast\<close> says that messages are escaped;
  the code does not do so for an array. The submit handler passes the \<open>message\<close> of the
  parsed server response to \<open>showToast\<close>; when it is the array with the one element
  \<open><img src=x onerror=alert(1)>\<close>, \<open>escapeHTML\<close> returns it unchanged, and its string
  conversion reaches the toast body with its markup: the body holds a raw \<open><\<close>.
\<close>

theorem toast_body_array_markup:
  "escapeHTML (JArray [JString ''<img src=x onerror=alert(1)>''])
     = JArray [JString ''<img src=x onerror=alert(1)>'']
   \<and> toast_body (JArray [JString ''<img src=x onerror=alert(1)>''])
     = ''<img src=x onerror=alert(1)>''
   \<and> CHR ''<'' \<in> set (toast_body (JArray [JString ''<img src=x onerror=alert(1)>'']))"
  by (simp add: toast_body_def escapeHTML_def)

end
